theory Spec2Isabelle
  imports Complex_Main "HOL-Library.Word"
begin

section \<open>The byte stream and the standard output\<close>

text \<open>
  \<open>validate(file)\<close> of \<open>validator.py\<close> works on a binary file object: it reads, seeks and
  prints. The model threads one record through every call: the bytes of the file, the
  position of the file object, and the lines printed so far.
\<close>

type_synonym byte = "8 word"

datatype line =
    Blank                     \<comment> \<open>\<open>print("")\<close>\<close>
  | Version_warning nat nat   \<comment> \<open>"WARNING: FSEQ version is major.minor. Only version 2.0 and 2.2 ..."\<close>
  | Download_hint             \<comment> \<open>"If the car fails to read this file, download and older version ..."\<close>
  | Report_hint               \<comment> \<open>"Please report this message at ..."\<close>

record world =
  content :: "byte list"
  pos :: nat
  stdout :: "line list"

definition open_file :: "byte list \<Rightarrow> world" where
  \<comment> \<open>\<open>open(path, "rb")\<close>: a fresh file object at position 0; nothing printed yet.\<close>
  "open_file bs = \<lparr>content = bs, pos = 0, stdout = []\<rparr>"

definition file_read :: "nat \<Rightarrow> world \<Rightarrow> byte list \<times> world" where
  \<comment> \<open>\<open>file.read(n)\<close>: at most \<open>n\<close> bytes, fewer (or none) at the end of the file; the
      position moves by the number of bytes returned.\<close>
  "file_read n w =
     (let bs = take n (drop (pos w) (content w))
      in (bs, w\<lparr>pos := pos w + length bs\<rparr>))"

definition file_seek :: "nat \<Rightarrow> world \<Rightarrow> world" where
  \<comment> \<open>\<open>file.seek(n)\<close>: absolute; a position past the end is allowed.\<close>
  "file_seek n w = w\<lparr>pos := n\<rparr>"

definition file_seek_cur :: "nat \<Rightarrow> world \<Rightarrow> world" where
  \<comment> \<open>\<open>file.seek(k, 1)\<close>: relative to the current position.\<close>
  "file_seek_cur k w = w\<lparr>pos := pos w + k\<rparr>"

definition print :: "line \<Rightarrow> world \<Rightarrow> world" where
  "print l w = w\<lparr>stdout := stdout w @ [l]\<rparr>"

section \<open>Errors and results\<close>

datatype message =
    Unknown_file_format       \<comment> \<open>"Unknown file format, expected FSEQ v2.0"\<close>
  | Expected_48_channels nat  \<comment> \<open>"Expected 48 channels, got \<open>channel_count\<close>"\<close>
  | Expected_uncompressed     \<comment> \<open>"Expected file format to be V2 Uncompressed"\<close>
  | Expected_duration rat     \<comment> \<open>"Expected total duration to be less than 5 minutes, got ..."\<close>

datatype error =
    ValidationError message   \<comment> \<open>the only exception class the module defines\<close>
  | Struct_error              \<comment> \<open>\<open>struct.error\<close>: the buffer given to \<open>struct.unpack\<close> is short\<close>

text \<open>
  \<open>duration_s\<close> and \<open>memory_usage\<close> are Python floats, each the correctly rounded quotient
  of two integers below \<open>2^53\<close>. The model keeps the exact quotient as a rational. The two
  comparisons the program makes with them (\<open>> 5*60\<close>, and \<open>> 1\<close> in the command line
  part) are against integers that are floats themselves, so they come out the same on the
  float and on the rational.
\<close>

record ValidationResults =
  frame_count :: nat
  step_time :: nat
  duration_s :: rat
  memory_usage :: rat

definition MEMORY_LIMIT :: nat where
  "MEMORY_LIMIT = 3500"

section \<open>Unpacking the header\<close>

definition le_uint :: "byte list \<Rightarrow> nat" where
  \<comment> \<open>an unsigned little-endian integer\<close>
  "le_uint bs = foldr (\<lambda>b acc. unat b + 256 * acc) bs 0"

definition unpack_HBB :: "byte list \<Rightarrow> error + nat \<times> nat \<times> nat" where
  \<comment> \<open>\<open>struct.unpack("<HBB", buf)\<close>\<close>
  "unpack_HBB buf =
     (if length buf \<noteq> 4 then Inl Struct_error
      else Inr (le_uint (take 2 buf), unat (buf ! 2), unat (buf ! 3)))"

definition unpack_IIB :: "byte list \<Rightarrow> error + nat \<times> nat \<times> nat" where
  \<comment> \<open>\<open>struct.unpack("<IIB", buf)\<close>\<close>
  "unpack_IIB buf =
     (if length buf \<noteq> 9 then Inl Struct_error
      else Inr (le_uint (take 4 buf), le_uint (take 4 (drop 4 buf)), unat (buf ! 8)))"

definition unpack_B :: "byte list \<Rightarrow> error + nat" where
  \<comment> \<open>\<open>struct.unpack("<B", buf)\<close>\<close>
  "unpack_B buf = (if length buf \<noteq> 1 then Inl Struct_error else Inr (unat (buf ! 0)))"

record header =
  h_magic :: "byte list"
  h_start :: nat
  h_minor :: nat
  h_major :: nat
  h_channel_count :: nat
  h_frame_count :: nat
  h_step_time :: nat
  h_compression_type :: nat

definition read_header :: "world \<Rightarrow> (error + header) \<times> world" where
  \<comment> \<open>lines 23 to 28: the reads and unpacks that come before any check\<close>
  "read_header w =
     (let (magic, w1) = file_read 4 w;
          (buf4, w2) = file_read 4 w1
      in case unpack_HBB buf4 of
           Inl e \<Rightarrow> (Inl e, w2)
         | Inr (start, minor, major) \<Rightarrow>
             (let w3 = file_seek 10 w2;
                  (buf9, w4) = file_read 9 w3
              in case unpack_IIB buf9 of
                   Inl e \<Rightarrow> (Inl e, w4)
                 | Inr (channel_count, frames, step) \<Rightarrow>
                     (let w5 = file_seek 20 w4;
                          (buf1, w6) = file_read 1 w5
                      in case unpack_B buf1 of
                           Inl e \<Rightarrow> (Inl e, w6)
                         | Inr compression_type \<Rightarrow>
                             (Inr \<lparr>h_magic = magic, h_start = start, h_minor = minor,
                                   h_major = major, h_channel_count = channel_count,
                                   h_frame_count = frames, h_step_time = step,
                                   h_compression_type = compression_type\<rparr>, w6))))"

definition PSEQ :: "byte list" where
  \<comment> \<open>\<open>b'PSEQ'\<close>\<close>
  "PSEQ = [0x50, 0x53, 0x45, 0x51]"

definition print_version_warning :: "nat \<Rightarrow> nat \<Rightarrow> world \<Rightarrow> world" where
  \<comment> \<open>lines 41 to 45\<close>
  "print_version_warning major minor w =
     print Blank (print Report_hint (print Download_hint
       (print (Version_warning major minor) (print Blank w))))"

section \<open>The frame loop\<close>

record tracker =
  prev_light :: "bool list option"
  prev_ramp :: "nat list option"
  prev_closure_1 :: "nat list option"
  prev_closure_2 :: "nat list option"
  count :: nat

definition init_tracker :: tracker where
  \<comment> \<open>lines 50 to 54\<close>
  "init_tracker = \<lparr>prev_light = None, prev_ramp = None, prev_closure_1 = None,
                   prev_closure_2 = None, count = 0\<rparr>"

definition light_state :: "byte list \<Rightarrow> bool list" where
  "light_state lights = map (\<lambda>b. unat b > 127) lights"

definition ramp_state :: "byte list \<Rightarrow> nat list" where
  "ramp_state lights =
     map (\<lambda>b. min (((if unat b > 127 then 255 - unat b else unat b) div 13 + 1) div 2) 3)
       (take 14 lights)"

definition closure_state :: "byte list \<Rightarrow> nat list" where
  "closure_state closures = map (\<lambda>b. (unat b div 32 + 1) div 2) closures"

definition update_tracker :: "byte list \<Rightarrow> byte list \<Rightarrow> tracker \<Rightarrow> tracker" where
  \<comment> \<open>lines 62 to 78; a list is never equal to \<open>None\<close>\<close>
  "update_tracker lights closures t =
     (let t1 = (if Some (light_state lights) \<noteq> prev_light t
                then t\<lparr>prev_light := Some (light_state lights), count := count t + 1\<rparr>
                else t);
          t2 = (if Some (ramp_state lights) \<noteq> prev_ramp t1
                then t1\<lparr>prev_ramp := Some (ramp_state lights), count := count t1 + 1\<rparr>
                else t1);
          t3 = (if Some (take 10 (closure_state closures)) \<noteq> prev_closure_1 t2
                then t2\<lparr>prev_closure_1 := Some (take 10 (closure_state closures)),
                        count := count t2 + 1\<rparr>
                else t2);
          t4 = (if Some (drop 10 (closure_state closures)) \<noteq> prev_closure_2 t3
                then t3\<lparr>prev_closure_2 := Some (drop 10 (closure_state closures)),
                        count := count t3 + 1\<rparr>
                else t3)
      in t4)"

definition frame_step :: "tracker \<Rightarrow> world \<Rightarrow> tracker \<times> world" where
  \<comment> \<open>one pass through the body of the loop, lines 57 to 78\<close>
  "frame_step t w =
     (let (lights, w1) = file_read 30 w;
          (closures, w2) = file_read 16 w1;
          w3 = file_seek_cur 2 w2
      in (update_tracker lights closures t, w3))"

fun frames_loop :: "nat \<Rightarrow> tracker \<Rightarrow> world \<Rightarrow> tracker \<times> world" where
  \<comment> \<open>\<open>for frame_i in range(frame_count)\<close>; the body does not use \<open>frame_i\<close>\<close>
  "frames_loop 0 t w = (t, w)"
| "frames_loop (Suc n) t w = (case frame_step t w of (t', w') \<Rightarrow> frames_loop n t' w')"

section \<open>validate\<close>

definition validate :: "world \<Rightarrow> (error + ValidationResults) \<times> world" where
  "validate w =
     (case read_header w of
        (Inl e, w') \<Rightarrow> (Inl e, w')
      | (Inr h, w1) \<Rightarrow>
          if h_magic h \<noteq> PSEQ \<or> h_start h < 24 \<or> h_frame_count h < 1 \<or> h_step_time h < 15
          then (Inl (ValidationError Unknown_file_format), w1)
          else if h_channel_count h \<noteq> 48
          then (Inl (ValidationError (Expected_48_channels (h_channel_count h))), w1)
          else if h_compression_type h \<noteq> 0
          then (Inl (ValidationError Expected_uncompressed), w1)
          else
            (let duration = (of_nat (h_frame_count h * h_step_time h) / 1000 :: rat)
             in if duration > 5 * 60
                then (Inl (ValidationError (Expected_duration duration)), w1)
                else
                  (let w2 = (if (h_minor h \<noteq> 0 \<and> h_minor h \<noteq> 2) \<or> h_major h \<noteq> 2
                             then print_version_warning (h_major h) (h_minor h) w1
                             else w1);
                       w3 = file_seek (h_start h) w2;
                       (t, w4) = frames_loop (h_frame_count h) init_tracker w3
                   in (Inr \<lparr>frame_count = h_frame_count h, step_time = h_step_time h,
                             duration_s = duration,
                             memory_usage = of_nat (count t) / of_nat MEMORY_LIMIT\<rparr>, w4))))"

section \<open>Auxiliary functions for the proofs\<close>

definition header_of :: "byte list \<Rightarrow> header" where
  \<comment> \<open>the header fields as functions of the bytes of the file; their agreement with
      \<open>read_header\<close> is lemma \<open>read_header_ok\<close> below\<close>
  "header_of bs =
     \<lparr>h_magic = take 4 bs, h_start = le_uint (take 2 (drop 4 bs)), h_minor = unat (bs ! 6),
      h_major = unat (bs ! 7), h_channel_count = le_uint (take 4 (drop 10 bs)),
      h_frame_count = le_uint (take 4 (drop 14 bs)), h_step_time = unat (bs ! 18),
      h_compression_type = unat (bs ! 20)\<rparr>"

fun count_frames :: "nat \<Rightarrow> tracker \<Rightarrow> byte list \<Rightarrow> tracker" where
  \<comment> \<open>the loop as a function of the bytes from the current position on; its agreement
      with \<open>frames_loop\<close> is lemma \<open>frames_loop_count_frames\<close> below\<close>
  "count_frames 0 t bs = t"
| "count_frames (Suc n) t bs =
     count_frames n (update_tracker (take 30 bs) (take 16 (drop 30 bs)) t) (drop 48 bs)"

definition result_of :: "byte list \<Rightarrow> error + ValidationResults" where
  \<comment> \<open>what \<open>validate\<close> returns on a freshly opened file, as a function of its bytes; the
      agreement with \<open>validate\<close> is lemma \<open>validate_result_of\<close> below\<close>
  "result_of bs =
     (if length bs < 21 then Inl Struct_error
      else
        (let h = header_of bs
         in if h_magic h \<noteq> PSEQ \<or> h_start h < 24 \<or> h_frame_count h < 1 \<or> h_step_time h < 15
            then Inl (ValidationError Unknown_file_format)
            else if h_channel_count h \<noteq> 48
            then Inl (ValidationError (Expected_48_channels (h_channel_count h)))
            else if h_compression_type h \<noteq> 0
            then Inl (ValidationError Expected_uncompressed)
            else if (of_nat (h_frame_count h * h_step_time h) / 1000 :: rat) > 5 * 60
            then Inl (ValidationError
                        (Expected_duration (of_nat (h_frame_count h * h_step_time h) / 1000)))
            else Inr \<lparr>frame_count = h_frame_count h, step_time = h_step_time h,
                      duration_s = of_nat (h_frame_count h * h_step_time h) / 1000,
                      memory_usage =
                        of_nat (count (count_frames (h_frame_count h) init_tracker
                                         (drop (h_start h) bs)))
                        / of_nat MEMORY_LIMIT\<rparr>))"

definition frame_lights :: "world \<Rightarrow> nat \<Rightarrow> byte list" where
  \<comment> \<open>the 30 light bytes of frame \<open>k\<close>, counted from the position of the file object\<close>
  "frame_lights w k = take 30 (drop (pos w + 48 * k) (content w))"

definition frame_closures :: "world \<Rightarrow> nat \<Rightarrow> byte list" where
  \<comment> \<open>the 16 closure bytes of frame \<open>k\<close>, behind its light bytes\<close>
  "frame_closures w k = take 16 (drop (pos w + 48 * k + 30) (content w))"

definition ramp_level :: "nat \<Rightarrow> nat" where
  \<comment> \<open>the quantization in the words of the specification\<close>
  "ramp_level byte = (let v = (if byte > 127 then 255 - byte else byte)
                      in min ((v div 13 + 1) div 2) 3)"

definition closure_level :: "nat \<Rightarrow> nat" where
  \<comment> \<open>the quantization in the words of the specification\<close>
  "closure_level byte = (byte div 32 + 1) div 2"

section \<open>The reads as functions of the bytes\<close>

lemma drop_after_read: "drop (p + min (length c - p) k) c = drop (k + p) c"
  by (auto simp: min_def add.commute)

lemma read_header_short:
  "pos w = 0 \<Longrightarrow> length (content w) < 21 \<Longrightarrow> fst (read_header w) = Inl Struct_error"
  by (auto simp: read_header_def file_read_def file_seek_def unpack_HBB_def unpack_IIB_def
      unpack_B_def Let_def min_def split: sum.splits prod.splits)

lemma read_header_ok:
  "pos w = 0 \<Longrightarrow> 21 \<le> length (content w) \<Longrightarrow>
   read_header w = (Inr (header_of (content w)), w\<lparr>pos := 21\<rparr>)"
  by (simp add: read_header_def file_read_def file_seek_def unpack_HBB_def unpack_IIB_def
      unpack_B_def Let_def min_def header_of_def take_drop)

lemma read_header_content: "content (snd (read_header w)) = content w"
  by (simp add: read_header_def file_read_def file_seek_def Let_def split: sum.splits prod.splits)

lemma read_header_stdout: "stdout (snd (read_header w)) = stdout w"
  by (simp add: read_header_def file_read_def file_seek_def Let_def split: sum.splits prod.splits)

lemma frame_step_fst:
  "fst (frame_step t w) =
   update_tracker (take 30 (drop (pos w) (content w))) (take 16 (drop 30 (drop (pos w) (content w)))) t"
  by (simp add: frame_step_def file_read_def file_seek_cur_def Let_def drop_after_read)

lemma frame_step_rest:
  "drop (pos (snd (frame_step t w))) (content (snd (frame_step t w))) = drop 48 (drop (pos w) (content w))"
proof -
  have "drop (pos w + min (length (content w) - pos w) 30 +
          min (length (content w) - (pos w + min (length (content w) - pos w) 30)) 16 + 2) (content w)
        = drop (48 + pos w) (content w)"
    by (auto simp: min_def)
  then show ?thesis
    by (simp add: frame_step_def file_read_def file_seek_cur_def Let_def)
qed

lemma frame_step_content: "content (snd (frame_step t w)) = content w"
  by (simp add: frame_step_def file_read_def file_seek_cur_def Let_def)

lemma frame_step_stdout: "stdout (snd (frame_step t w)) = stdout w"
  by (simp add: frame_step_def file_read_def file_seek_cur_def Let_def)

lemma frames_loop_Suc:
  "frames_loop (Suc n) t w = frames_loop n (fst (frame_step t w)) (snd (frame_step t w))"
  by (simp add: case_prod_beta)

lemma frames_loop_count_frames:
  "fst (frames_loop n t w) = count_frames n t (drop (pos w) (content w))"
proof (induction n arbitrary: t w)
  case 0
  show ?case by simp
next
  case (Suc n)
  show ?case
    unfolding frames_loop_Suc Suc.IH count_frames.simps frame_step_fst frame_step_rest ..
qed

lemma frames_loop_content: "content (snd (frames_loop n t w)) = content w"
proof (induction n arbitrary: t w)
  case 0
  show ?case by simp
next
  case (Suc n)
  show ?case
    unfolding frames_loop_Suc Suc.IH frame_step_content ..
qed

lemma frames_loop_stdout: "stdout (snd (frames_loop n t w)) = stdout w"
proof (induction n arbitrary: t w)
  case 0
  show ?case by simp
next
  case (Suc n)
  show ?case
    unfolding frames_loop_Suc Suc.IH frame_step_stdout ..
qed

section \<open>One pass of the tracker\<close>

lemma update_tracker_count:
  "count (update_tracker lights closures t) =
     count t + (if Some (light_state lights) \<noteq> prev_light t then 1 else 0)
             + (if Some (ramp_state lights) \<noteq> prev_ramp t then 1 else 0)
             + (if Some (take 10 (closure_state closures)) \<noteq> prev_closure_1 t then 1 else 0)
             + (if Some (drop 10 (closure_state closures)) \<noteq> prev_closure_2 t then 1 else 0)"
  by (simp add: update_tracker_def)

lemma update_tracker_prev:
  "prev_light (update_tracker lights closures t) = Some (light_state lights)"
  "prev_ramp (update_tracker lights closures t) = Some (ramp_state lights)"
  "prev_closure_1 (update_tracker lights closures t) = Some (take 10 (closure_state closures))"
  "prev_closure_2 (update_tracker lights closures t) = Some (drop 10 (closure_state closures))"
  by (simp_all add: update_tracker_def)

section \<open>Quantization\<close>

text \<open>
  C2, as the code has it. The ramp state of a frame is the list of the levels of the first
  14 light bytes, each level being \<open>min(((v // 13) + 1) // 2, 3)\<close> with \<open>v = 255 - byte\<close>
  when \<open>byte > 127\<close> and \<open>v = byte\<close> otherwise; it is what the tracker retains. Byte 0 has
  level 0 and byte 255 has level 0. Byte 127 has level 3, not 2: \<open>127 // 13 = 9\<close>,
  \<open>(9 + 1) // 2 = 5\<close> and \<open>min(5, 3) = 3\<close>.
\<close>

theorem ramp_quantization:
  "ramp_state lights = map (\<lambda>b. ramp_level (unat b)) (take 14 lights)
   \<and> ramp_level 0 = 0 \<and> ramp_level 255 = 0 \<and> ramp_level 127 = 3
   \<and> prev_ramp (update_tracker lights closures t) = Some (ramp_state lights)"
  by (simp add: ramp_state_def ramp_level_def update_tracker_prev)

theorem ramp_quantization_witness:
  "ramp_state [0, 255, 127] = [0, 0, 3]"
  using ramp_quantization [of "[0, 255, 127]" "[]" init_tracker]
  by simp

text \<open>
  C2 as the specification states it gives byte 127 the level 2; the code computes 3.
\<close>

theorem ramp_127_counterexample:
  "ramp_state [127] = [3] \<and> ramp_state [127] \<noteq> [2]"
  by (simp add: ramp_state_def)

section \<open>validate as a function of the bytes\<close>

lemma print_version_warning_content: "content (print_version_warning major minor w) = content w"
  by (simp add: print_version_warning_def print_def)

lemma validate_short:
  assumes "pos w = 0" and "length (content w) < 21"
  shows "fst (validate w) = Inl Struct_error"
proof -
  obtain w' where "read_header w = (Inl Struct_error, w')"
    using read_header_short [OF assms] by (cases "read_header w") simp
  then show ?thesis by (simp add: validate_def)
qed

lemma validate_result_of:
  assumes "pos w = 0"
  shows "fst (validate w) = result_of (content w)"
proof (cases "length (content w) < 21")
  case True
  then show ?thesis using validate_short [OF assms] by (simp add: result_of_def)
next
  case False
  then have rh: "read_header w = (Inr (header_of (content w)), w\<lparr>pos := 21\<rparr>)"
    using read_header_ok [OF assms] by simp
  show ?thesis
    using False
    by (simp add: validate_def rh result_of_def Let_def case_prod_beta frames_loop_count_frames
        file_seek_def print_version_warning_content)
qed

lemma validate_open_file: "fst (validate (open_file bs)) = result_of bs"
  using validate_result_of [of "open_file bs"] by (simp add: open_file_def)

lemma count_frames_pos:
  "0 < n \<Longrightarrow> count_frames n t bs =
     count_frames (n - 1) (update_tracker (take 30 bs) (take 16 (drop 30 bs)) t) (drop 48 bs)"
  by (cases n) simp_all


section \<open>Header checks\<close>

text \<open>
  C4, as the code has it. For every stream of at least 21 bytes whose first 4 bytes are not
  the literal "PSEQ", \<open>validate\<close> raises the \<open>ValidationError\<close> with the message
  "Unknown file format, expected FSEQ v2.0", whatever the remaining bytes are. The 21 bytes
  are what the three \<open>struct.unpack\<close> calls need: all of them run before the first check.
\<close>

theorem bad_magic_fails:
  "21 \<le> length bs \<Longrightarrow> take 4 bs \<noteq> PSEQ \<Longrightarrow>
   fst (validate (open_file bs)) = Inl (ValidationError Unknown_file_format)"
  by (simp add: validate_open_file result_of_def header_of_def)

theorem bad_magic_fails_witness:
  "fst (validate (open_file ([0x58, 0x53, 0x45, 0x51] @ replicate 17 0))) =
     Inl (ValidationError Unknown_file_format)"
  using bad_magic_fails [of "[0x58, 0x53, 0x45, 0x51] @ replicate 17 0"]
  by (simp add: PSEQ_def)

text \<open>
  C4 as the specification states it covers every stream. On the 4-byte stream "XXXX" the
  second read returns no byte, \<open>struct.unpack("<HBB", ...)\<close> raises \<open>struct.error\<close>, and
  the check of the magic number is never reached.
\<close>

theorem short_stream_counterexample:
  "take 4 [0x58, 0x58, 0x58, 0x58 :: byte] \<noteq> PSEQ
   \<and> fst (validate (open_file [0x58, 0x58, 0x58, 0x58])) = Inl Struct_error
   \<and> fst (validate (open_file [0x58, 0x58, 0x58, 0x58])) \<noteq> Inl (ValidationError Unknown_file_format)"
  by (simp add: validate_open_file result_of_def PSEQ_def)

text \<open>
  C5. For every stream of at least 21 bytes whose header passes the format, channel-count
  and compression checks, \<open>validate\<close> raises the duration error exactly when
  \<open>frame_count * step_time / 1000\<close> is greater than 300, the error carrying that duration;
  otherwise it returns a result whose \<open>duration_s\<close> is that quotient. In particular
  \<open>frame_count = 20000\<close> with \<open>step_time = 15\<close> gives the duration 300 and does not fail.
  The quotient is a Python float; the model takes the exact rational. The product is an
  integer below \<open>2^53\<close>, the float is the correctly rounded quotient and 300 is a float, so
  the float exceeds 300 exactly when the rational does.
\<close>

theorem duration_check:
  assumes "21 \<le> length bs"
    and "take 4 bs = PSEQ" and "24 \<le> h_start (header_of bs)"
    and "1 \<le> h_frame_count (header_of bs)" and "15 \<le> h_step_time (header_of bs)"
    and "h_channel_count (header_of bs) = 48" and "h_compression_type (header_of bs) = 0"
  shows "((\<exists>d. fst (validate (open_file bs)) = Inl (ValidationError (Expected_duration d)))
            \<longleftrightarrow> (of_nat (h_frame_count (header_of bs) * h_step_time (header_of bs)) / 1000 :: rat) > 300)
       \<and> ((of_nat (h_frame_count (header_of bs) * h_step_time (header_of bs)) / 1000 :: rat) > 300
            \<longrightarrow> fst (validate (open_file bs)) =
                  Inl (ValidationError (Expected_duration
                    (of_nat (h_frame_count (header_of bs) * h_step_time (header_of bs)) / 1000))))
       \<and> (\<not> (of_nat (h_frame_count (header_of bs) * h_step_time (header_of bs)) / 1000 :: rat) > 300
            \<longrightarrow> (\<exists>r. fst (validate (open_file bs)) = Inr r
                     \<and> duration_s r =
                        of_nat (h_frame_count (header_of bs) * h_step_time (header_of bs)) / 1000))
       \<and> (h_frame_count (header_of bs) = 20000 \<and> h_step_time (header_of bs) = 15
            \<longrightarrow> (\<exists>r. fst (validate (open_file bs)) = Inr r \<and> duration_s r = 300))"
proof -
  define d :: rat
    where "d = of_nat (h_frame_count (header_of bs) * h_step_time (header_of bs)) / 1000"
  have magic: "h_magic (header_of bs) = PSEQ"
    using assms(2) by (simp add: header_of_def)
  have over: "fst (validate (open_file bs)) = Inl (ValidationError (Expected_duration d))"
    if "300 < d"
    using assms magic that unfolding d_def
    by (simp add: validate_open_file result_of_def Let_def)
  have under: "\<exists>r. fst (validate (open_file bs)) = Inr r \<and> duration_s r = d"
    if "\<not> 300 < d"
    using assms magic that unfolding d_def
    by (simp add: validate_open_file result_of_def Let_def)
  have boundary: "d = 300"
    if "h_frame_count (header_of bs) = 20000 \<and> h_step_time (header_of bs) = 15"
    using that by (simp add: d_def)
  have "((\<exists>e. fst (validate (open_file bs)) = Inl (ValidationError (Expected_duration e)))
            \<longleftrightarrow> 300 < d)
       \<and> (300 < d \<longrightarrow> fst (validate (open_file bs)) = Inl (ValidationError (Expected_duration d)))
       \<and> (\<not> 300 < d \<longrightarrow> (\<exists>r. fst (validate (open_file bs)) = Inr r \<and> duration_s r = d))
       \<and> (h_frame_count (header_of bs) = 20000 \<and> h_step_time (header_of bs) = 15
            \<longrightarrow> (\<exists>r. fst (validate (open_file bs)) = Inr r \<and> duration_s r = 300))"
  proof (cases "300 < d")
    case True
    then show ?thesis using over boundary by auto
  next
    case False
    then show ?thesis using under boundary by auto
  qed
  then show ?thesis unfolding d_def .
qed

theorem duration_check_witness:
  "\<exists>r. fst (validate (open_file
          [0x50, 0x53, 0x45, 0x51, 24, 0, 0, 2, 0, 0, 48, 0, 0, 0, 0x20, 0x4E, 0, 0, 15, 0,
           0, 0, 0, 0])) = Inr r \<and> duration_s r = 300"
  using duration_check [of "[0x50, 0x53, 0x45, 0x51, 24, 0, 0, 2, 0, 0, 48, 0, 0, 0, 0x20, 0x4E,
                              0, 0, 15, 0, 0, 0, 0, 0]"]
  by (simp add: header_of_def le_uint_def PSEQ_def)

section \<open>Truncated frame data\<close>




section \<open>The change counter\<close>

lemma update_tracker_init_count: "count (update_tracker lights closures init_tracker) = 4"
  by (simp add: update_tracker_count init_tracker_def)

lemma update_tracker_count_bounds:
  "count t \<le> count (update_tracker lights closures t)"
  "count (update_tracker lights closures t) \<le> count t + 4"
  by (simp_all add: update_tracker_count)

lemma count_frames_bounds:
  "count t \<le> count (count_frames n t bs) \<and> count (count_frames n t bs) \<le> count t + 4 * n"
proof (induction n arbitrary: t bs)
  case 0
  show ?case by simp
next
  case (Suc n)
  let ?u = "update_tracker (take 30 bs) (take 16 (drop 30 bs)) t"
  have "count ?u \<le> count (count_frames n ?u (drop 48 bs))"
    and "count (count_frames n ?u (drop 48 bs)) \<le> count ?u + 4 * n"
    using Suc.IH [of ?u "drop 48 bs"] by simp_all
  moreover have "count t \<le> count ?u" and "count ?u \<le> count t + 4"
    by (rule update_tracker_count_bounds)+
  ultimately show ?case by simp
qed

lemma count_frames_init_lower: "0 < n \<Longrightarrow> 4 \<le> count (count_frames n init_tracker bs)"
proof -
  assume "0 < n"
  then obtain m where n: "n = Suc m" by (cases n) simp_all
  let ?u = "update_tracker (take 30 bs) (take 16 (drop 30 bs)) init_tracker"
  have "count ?u \<le> count (count_frames m ?u (drop 48 bs))"
    using count_frames_bounds [of ?u m "drop 48 bs"] by simp
  then show ?thesis by (simp add: n update_tracker_init_count)
qed

lemma count_frames_Suc_end:
  "count_frames (Suc n) t bs =
     update_tracker (take 30 (drop (48 * n) bs)) (take 16 (drop 30 (drop (48 * n) bs)))
       (count_frames n t bs)"
proof (induction n arbitrary: t bs)
  case 0
  show ?case by simp
next
  case (Suc n)
  let ?u = "update_tracker (take 30 bs) (take 16 (drop 30 bs)) t"
  have "count_frames (Suc (Suc n)) t bs = count_frames (Suc n) ?u (drop 48 bs)"
    by simp
  also have "\<dots> = update_tracker (take 30 (drop (48 * n) (drop 48 bs)))
                     (take 16 (drop 30 (drop (48 * n) (drop 48 bs))))
                     (count_frames n ?u (drop 48 bs))"
    by (rule Suc.IH)
  also have "count_frames n ?u (drop 48 bs) = count_frames (Suc n) t bs"
    by simp
  also have "drop (48 * n) (drop 48 bs) = drop (48 * Suc n) bs"
    by (simp add: add.commute)
  finally show ?case .
qed

text \<open>
  C6. Against the empty previous state every frame counts four changes, one for each of the
  light state, the ramp state and the two halves of the closure state: a list is never equal
  to \<open>None\<close>. So whenever \<open>validate\<close> returns a result for a stream whose header declares
  one frame, the change count is 4 and the result carries \<open>4 / 3500\<close>.
\<close>

theorem first_frame_counts_four:
  "count (update_tracker lights closures init_tracker) = 4
   \<and> (fst (validate (open_file bs)) = Inr r \<longrightarrow> frame_count r = 1 \<longrightarrow>
        memory_usage r = 4 / 3500)"
proof -
  have "memory_usage r = 4 / 3500"
    if "result_of bs = Inr r" and "frame_count r = 1"
    using that
    by (auto simp: result_of_def Let_def MEMORY_LIMIT_def update_tracker_init_count
        split: if_splits)
  then show ?thesis
    by (simp add: validate_open_file update_tracker_init_count)
qed

theorem first_frame_counts_four_witness:
  "fst (validate (open_file
          ([0x50, 0x53, 0x45, 0x51, 24, 0, 0, 2, 0, 0, 48, 0, 0, 0, 1, 0, 0, 0, 15, 0,
            0, 0, 0, 0] @ replicate 30 200 @ replicate 18 7))) =
     Inr \<lparr>frame_count = 1, step_time = 15, duration_s = 3 / 200, memory_usage = 4 / 3500\<rparr>
   \<and> memory_usage \<lparr>frame_count = 1, step_time = 15, duration_s = 3 / 200,
                    memory_usage = 4 / 3500\<rparr> = 4 / 3500"
proof -
  have ok: "fst (validate (open_file
              ([0x50, 0x53, 0x45, 0x51, 24, 0, 0, 2, 0, 0, 48, 0, 0, 0, 1, 0, 0, 0, 15, 0,
                0, 0, 0, 0] @ replicate 30 200 @ replicate 18 7))) =
            Inr \<lparr>frame_count = 1, step_time = 15, duration_s = 3 / 200,
                  memory_usage = 4 / 3500\<rparr>"
    by (simp add: validate_open_file result_of_def header_of_def le_uint_def PSEQ_def
        MEMORY_LIMIT_def update_tracker_init_count)
  show ?thesis
    using first_frame_counts_four [of "[]" "[]"
        "[0x50, 0x53, 0x45, 0x51, 24, 0, 0, 2, 0, 0, 48, 0, 0, 0, 1, 0, 0, 0, 15, 0,
          0, 0, 0, 0] @ replicate 30 200 @ replicate 18 7"
        "\<lparr>frame_count = 1, step_time = 15, duration_s = 3 / 200, memory_usage = 4 / 3500\<rparr>"]
      ok
    by simp
qed

text \<open>
  C10. Whenever \<open>validate\<close> returns a result for \<open>frame_count = F\<close>, then \<open>F\<close> is at least
  1 and the change count \<open>c\<close> behind \<open>memory_usage = c / 3500\<close> satisfies
  \<open>4 \<le> c \<le> 4 * F\<close>. The counter starts at 0, the first frame adds exactly 4, and running
  the loop for one more frame adds between 0 and 4 to the count reached before, so the
  counter never decreases.
\<close>

theorem change_count_bounds:
  "(fst (validate (open_file bs)) = Inr r \<longrightarrow>
      (\<exists>c. memory_usage r = of_nat c / 3500 \<and> 4 \<le> c \<and> c \<le> 4 * frame_count r)
      \<and> 1 \<le> frame_count r)
   \<and> count init_tracker = 0
   \<and> count (fst (frames_loop 1 init_tracker w)) = 4
   \<and> count (fst (frames_loop n t w)) \<le> count (fst (frames_loop (Suc n) t w))
   \<and> count (fst (frames_loop (Suc n) t w)) \<le> count (fst (frames_loop n t w)) + 4"
proof -
  have "(\<exists>c. memory_usage r = of_nat c / 3500 \<and> 4 \<le> c \<and> c \<le> 4 * frame_count r)
        \<and> 1 \<le> frame_count r"
    if res: "result_of bs = Inr r"
  proof -
    define h where "h = header_of bs"
    define c where
      "c = count (count_frames (h_frame_count h) init_tracker (drop (h_start h) bs))"
    have r: "frame_count r = h_frame_count h" "memory_usage r = of_nat c / 3500"
      "1 \<le> h_frame_count h"
      using res
      by (auto simp: result_of_def Let_def MEMORY_LIMIT_def h_def c_def split: if_splits)
    have "4 \<le> c"
      unfolding c_def using r(3) by (intro count_frames_init_lower) simp
    moreover have "c \<le> 4 * h_frame_count h"
      unfolding c_def
      using count_frames_bounds [of init_tracker "h_frame_count h" "drop (h_start h) bs"]
      by (simp add: init_tracker_def)
    ultimately show ?thesis using r by auto
  qed
  moreover have "count (fst (frames_loop 1 init_tracker w)) = 4"
    by (simp only: frames_loop_count_frames One_nat_def count_frames.simps
        update_tracker_init_count)
  moreover have "count (fst (frames_loop n t w)) \<le> count (fst (frames_loop (Suc n) t w))"
    and "count (fst (frames_loop (Suc n) t w)) \<le> count (fst (frames_loop n t w)) + 4"
    unfolding frames_loop_count_frames count_frames_Suc_end
    by (rule update_tracker_count_bounds)+
  ultimately show ?thesis
    by (simp add: validate_open_file init_tracker_def)
qed

theorem change_count_bounds_witness:
  "fst (validate (open_file
          ([0x50, 0x53, 0x45, 0x51, 24, 0, 0, 2, 0, 0, 48, 0, 0, 0, 2, 0, 0, 0, 20, 0,
            0, 0, 0, 0] @ replicate 48 0 @ replicate 48 200))) =
     Inr \<lparr>frame_count = 2, step_time = 20, duration_s = 1 / 25, memory_usage = 8 / 3500\<rparr>
   \<and> (\<exists>c. (8 / 3500 :: rat) = of_nat c / 3500 \<and> 4 \<le> c \<and> c \<le> 4 * 2)"
proof -
  have ok: "fst (validate (open_file
              ([0x50, 0x53, 0x45, 0x51, 24, 0, 0, 2, 0, 0, 48, 0, 0, 0, 2, 0, 0, 0, 20, 0,
                0, 0, 0, 0] @ replicate 48 0 @ replicate 48 200))) =
            Inr \<lparr>frame_count = 2, step_time = 20, duration_s = 1 / 25,
                  memory_usage = 8 / 3500\<rparr>"
    by (simp add: validate_open_file result_of_def header_of_def le_uint_def PSEQ_def
        MEMORY_LIMIT_def count_frames_pos update_tracker_def init_tracker_def light_state_def
        ramp_state_def closure_state_def)
  show ?thesis
    using change_count_bounds [of
        "[0x50, 0x53, 0x45, 0x51, 24, 0, 0, 2, 0, 0, 48, 0, 0, 0, 2, 0, 0, 0, 20, 0,
          0, 0, 0, 0] @ replicate 48 0 @ replicate 48 200"
        "\<lparr>frame_count = 2, step_time = 20, duration_s = 1 / 25, memory_usage = 8 / 3500\<rparr>"]
      ok
    by simp
qed

section \<open>The closure state of each frame\<close>

lemma frames_loop_Suc_end:
  "fst (frames_loop (Suc k) t w) =
     update_tracker (frame_lights w k) (frame_closures w k) (fst (frames_loop k t w))"
  unfolding frames_loop_count_frames count_frames_Suc_end frame_lights_def frame_closures_def
  by (simp add: add.commute add.left_commute)

lemma frame_step_frame:
  "fst (frame_step t w) = update_tracker (frame_lights w 0) (frame_closures w 0) t"
  by (simp add: frame_step_fst frame_lights_def frame_closures_def add.commute)

text \<open>
  C3. In every pass of the loop the 16 bytes read behind the 30 light bytes are the closure
  bytes of that frame, and each is mapped through \<open>(byte // 32 + 1) // 2\<close> with no clamp:
  byte 0 has level 0 and byte 255 has level 4. After frame \<open>k\<close> the tracker retains the first
  10 levels and the remaining levels of that frame separately (10 and 6 of them when the
  frame is complete), and each of the four groups adds one to the counter exactly when it
  differs from the value retained for that group, whatever the other groups do. In the show
  of two frames below only the last 6 closure bytes change, from 192 (level 3) to 255
  (level 4): \<open>validate\<close> counts 4 changes for the first frame and 1 for the second.
\<close>

theorem closure_state_each_frame:
  "fst (file_read 16 (snd (file_read 30 w))) = frame_closures w 0
   \<and> fst (frame_step t w) = update_tracker (frame_lights w 0) (frame_closures w 0) t
   \<and> fst (frames_loop (Suc k) t w) =
       update_tracker (frame_lights w k) (frame_closures w k) (fst (frames_loop k t w))
   \<and> prev_closure_1 (fst (frames_loop (Suc k) t w)) =
       Some (take 10 (map (\<lambda>b. closure_level (unat b)) (frame_closures w k)))
   \<and> prev_closure_2 (fst (frames_loop (Suc k) t w)) =
       Some (drop 10 (map (\<lambda>b. closure_level (unat b)) (frame_closures w k)))
   \<and> count (fst (frames_loop (Suc k) t w)) =
       count (fst (frames_loop k t w))
       + (if Some (light_state (frame_lights w k)) \<noteq> prev_light (fst (frames_loop k t w))
          then 1 else 0)
       + (if Some (ramp_state (frame_lights w k)) \<noteq> prev_ramp (fst (frames_loop k t w))
          then 1 else 0)
       + (if Some (take 10 (map (\<lambda>b. closure_level (unat b)) (frame_closures w k)))
             \<noteq> prev_closure_1 (fst (frames_loop k t w))
          then 1 else 0)
       + (if Some (drop 10 (map (\<lambda>b. closure_level (unat b)) (frame_closures w k)))
             \<noteq> prev_closure_2 (fst (frames_loop k t w))
          then 1 else 0)
   \<and> (pos w + 48 * k + 46 \<le> length (content w) \<longrightarrow>
        length (frame_closures w k) = 16
        \<and> length (take 10 (map (\<lambda>b. closure_level (unat b)) (frame_closures w k))) = 10
        \<and> length (drop 10 (map (\<lambda>b. closure_level (unat b)) (frame_closures w k))) = 6)
   \<and> closure_level 0 = 0 \<and> closure_level 255 = 4
   \<and> fst (validate (open_file
          ([0x50, 0x53, 0x45, 0x51, 24, 0, 0, 2, 0, 0, 48, 0, 0, 0, 2, 0, 0, 0, 20, 0,
            0, 0, 0, 0]
           @ replicate 30 0 @ replicate 16 192 @ [0, 0]
           @ replicate 30 0 @ replicate 10 192 @ replicate 6 255 @ [0, 0]))) =
       Inr \<lparr>frame_count = 2, step_time = 20, duration_s = 1 / 25, memory_usage = 5 / 3500\<rparr>"
proof -
  have levels: "closure_state cs = map (\<lambda>b. closure_level (unat b)) cs" for cs
    by (simp add: closure_state_def closure_level_def)
  have read: "fst (file_read 16 (snd (file_read 30 w))) = frame_closures w 0"
    by (simp add: file_read_def Let_def frame_closures_def drop_after_read add.commute)
  have step: "fst (frame_step t w) = update_tracker (frame_lights w 0) (frame_closures w 0) t"
    by (rule frame_step_frame)
  have full: "length (frame_closures w k) = 16" if "pos w + 48 * k + 46 \<le> length (content w)"
    using that by (simp add: frame_closures_def)
  have show_ok: "fst (validate (open_file
          ([0x50, 0x53, 0x45, 0x51, 24, 0, 0, 2, 0, 0, 48, 0, 0, 0, 2, 0, 0, 0, 20, 0,
            0, 0, 0, 0]
           @ replicate 30 0 @ replicate 16 192 @ [0, 0]
           @ replicate 30 0 @ replicate 10 192 @ replicate 6 255 @ [0, 0]))) =
       Inr \<lparr>frame_count = 2, step_time = 20, duration_s = 1 / 25, memory_usage = 5 / 3500\<rparr>"
    by (simp add: validate_open_file result_of_def header_of_def le_uint_def PSEQ_def
        MEMORY_LIMIT_def count_frames_pos update_tracker_def init_tracker_def light_state_def
        ramp_state_def closure_state_def)
  show ?thesis
    unfolding frames_loop_Suc_end update_tracker_prev update_tracker_count levels [symmetric]
    using read step full show_ok
    by (simp add: closure_state_def closure_level_def)
qed

theorem closure_state_each_frame_witness:
  "24 + 48 * 1 + 46 \<le> length
      ([0x50, 0x53, 0x45, 0x51, 24, 0, 0, 2, 0, 0, 48, 0, 0, 0, 2, 0, 0, 0, 20, 0, 0, 0, 0, 0]
       @ replicate 30 0 @ replicate 16 192 @ [0, 0]
       @ replicate 30 0 @ replicate 10 192 @ replicate 6 (255::byte) @ [0, 0])
   \<and> length (frame_closures
        \<lparr>content =
           [0x50, 0x53, 0x45, 0x51, 24, 0, 0, 2, 0, 0, 48, 0, 0, 0, 2, 0, 0, 0, 20, 0, 0, 0, 0, 0]
           @ replicate 30 0 @ replicate 16 192 @ [0, 0]
           @ replicate 30 0 @ replicate 10 192 @ replicate 6 255 @ [0, 0],
         pos = 24, stdout = []\<rparr> 1) = 16
   \<and> prev_closure_1 (fst (frames_loop (Suc 1) init_tracker
        \<lparr>content =
           [0x50, 0x53, 0x45, 0x51, 24, 0, 0, 2, 0, 0, 48, 0, 0, 0, 2, 0, 0, 0, 20, 0, 0, 0, 0, 0]
           @ replicate 30 0 @ replicate 16 192 @ [0, 0]
           @ replicate 30 0 @ replicate 10 192 @ replicate 6 255 @ [0, 0],
         pos = 24, stdout = []\<rparr>)) = Some (replicate 10 3)
   \<and> prev_closure_2 (fst (frames_loop (Suc 1) init_tracker
        \<lparr>content =
           [0x50, 0x53, 0x45, 0x51, 24, 0, 0, 2, 0, 0, 48, 0, 0, 0, 2, 0, 0, 0, 20, 0, 0, 0, 0, 0]
           @ replicate 30 0 @ replicate 16 192 @ [0, 0]
           @ replicate 30 0 @ replicate 10 192 @ replicate 6 255 @ [0, 0],
         pos = 24, stdout = []\<rparr>)) = Some (replicate 6 4)"
proof -
  let ?W = "\<lparr>content =
           [0x50, 0x53, 0x45, 0x51, 24, 0, 0, 2, 0, 0, 48, 0, 0, 0, 2, 0, 0, 0, 20, 0, 0, 0, 0, 0]
           @ replicate 30 0 @ replicate 16 192 @ [0, 0]
           @ replicate 30 0 @ replicate 10 192 @ replicate 6 (255::byte) @ [0, 0],
         pos = 24, stdout = []\<rparr>"
  have frame: "frame_closures ?W 1 = replicate 10 192 @ replicate 6 255"
    by (simp add: frame_closures_def)
  note inst = closure_state_each_frame [of ?W init_tracker 1]
  have hyp: "pos ?W + 48 * 1 + 46 \<le> length (content ?W)"
    by simp
  have full: "length (frame_closures ?W 1) = 16"
    using inst hyp by blast
  have first: "prev_closure_1 (fst (frames_loop (Suc 1) init_tracker ?W)) =
        Some (take 10 (map (\<lambda>b. closure_level (unat b)) (frame_closures ?W 1)))"
    using inst by blast
  have second: "prev_closure_2 (fst (frames_loop (Suc 1) init_tracker ?W)) =
        Some (drop 10 (map (\<lambda>b. closure_level (unat b)) (frame_closures ?W 1)))"
    using inst by blast
  show ?thesis
    unfolding first second full frame by (simp add: closure_level_def)
qed

section \<open>Memory usage\<close>

lemma two_frames_lo_hi:
  assumes "prev_light t \<noteq> Some (replicate 30 False)"
    and "prev_ramp t \<noteq> Some (replicate 14 0)"
    and "prev_closure_1 t \<noteq> Some (replicate 10 0)"
    and "prev_closure_2 t \<noteq> Some (replicate 6 0)"
  shows "count_frames (Suc (Suc n)) t (replicate 48 0 @ replicate 48 200 @ bs) =
         count_frames n
           \<lparr>prev_light = Some (replicate 30 True), prev_ramp = Some (replicate 14 2),
            prev_closure_1 = Some (replicate 10 3), prev_closure_2 = Some (replicate 6 3),
            count = count t + 8\<rparr> bs"
proof -
  have lo: "update_tracker (replicate 30 0) (replicate 16 0) t =
            \<lparr>prev_light = Some (replicate 30 False), prev_ramp = Some (replicate 14 0),
             prev_closure_1 = Some (replicate 10 0), prev_closure_2 = Some (replicate 6 0),
             count = count t + 4\<rparr>"
    using assms
    by (cases t)
      (simp add: update_tracker_def light_state_def ramp_state_def closure_state_def)
  have hi: "update_tracker (replicate 30 200) (replicate 16 200)
              \<lparr>prev_light = Some (replicate 30 False), prev_ramp = Some (replicate 14 0),
               prev_closure_1 = Some (replicate 10 0), prev_closure_2 = Some (replicate 6 0),
               count = c\<rparr> =
            \<lparr>prev_light = Some (replicate 30 True), prev_ramp = Some (replicate 14 2),
             prev_closure_1 = Some (replicate 10 3), prev_closure_2 = Some (replicate 6 3),
             count = c + 4\<rparr>" for c
    by (simp add: update_tracker_def light_state_def ramp_state_def closure_state_def)
  show ?thesis
    by (simp add: lo hi add.commute)
qed

lemma alternating_frames:
  assumes "prev_light t \<noteq> Some (replicate 30 False)"
    and "prev_ramp t \<noteq> Some (replicate 14 0)"
    and "prev_closure_1 t \<noteq> Some (replicate 10 0)"
    and "prev_closure_2 t \<noteq> Some (replicate 6 0)"
  shows "count (count_frames (2 * k) t
                  (concat (replicate k (replicate 48 0 @ replicate 48 200)))) =
         count t + 8 * k"
  using assms
proof (induction k arbitrary: t)
  case 0
  show ?case by simp
next
  case (Suc k)
  let ?t' = "\<lparr>prev_light = Some (replicate 30 True), prev_ramp = Some (replicate 14 2),
              prev_closure_1 = Some (replicate 10 3), prev_closure_2 = Some (replicate 6 3),
              count = count t + 8\<rparr>"
  have "count_frames (2 * Suc k) t
          (concat (replicate (Suc k) (replicate 48 0 @ replicate 48 200))) =
        count_frames (Suc (Suc (2 * k))) t
          (replicate 48 0 @ replicate 48 200 @
             concat (replicate k (replicate 48 0 @ replicate 48 200)))"
    by simp
  also have "\<dots> = count_frames (2 * k) ?t'
                     (concat (replicate k (replicate 48 0 @ replicate 48 200)))"
    using Suc.prems by (rule two_frames_lo_hi)
  finally show ?case
    using Suc.IH [of ?t'] by simp
qed

text \<open>
  C7. On success \<open>memory_usage\<close> is the count the frame loop reaches from the data start
  offset, divided by \<open>MEMORY_LIMIT = 3500\<close>, and nothing clamps it. A show of 876 frames that
  alternate between all bytes 0 and all bytes 200 changes all four groups at every frame:
  \<open>validate\<close> returns it with \<open>memory_usage = 3504 / 3500\<close>, above 1.
\<close>

theorem memory_usage_unclamped:
  "(fst (validate (open_file bs)) = Inr r \<longrightarrow>
      memory_usage r =
        of_nat (count (fst (frames_loop (frame_count r) init_tracker
                  \<lparr>content = bs, pos = h_start (header_of bs), stdout = out\<rparr>)))
        / of_nat MEMORY_LIMIT)
   \<and> MEMORY_LIMIT = 3500
   \<and> (\<exists>r. fst (validate (open_file
              ([0x50, 0x53, 0x45, 0x51, 24, 0, 0, 2, 0, 0, 48, 0, 0, 0, 0x6C, 0x03, 0, 0, 15, 0,
                0, 0, 0, 0] @ concat (replicate 438 (replicate 48 0 @ replicate 48 200))))) = Inr r
          \<and> frame_count r = 876 \<and> memory_usage r = 3504 / 3500 \<and> 1 < memory_usage r)"
proof -
  have general: "memory_usage r =
        of_nat (count (fst (frames_loop (frame_count r) init_tracker
                  \<lparr>content = bs, pos = h_start (header_of bs), stdout = out\<rparr>)))
        / of_nat MEMORY_LIMIT"
    if "result_of bs = Inr r"
    using that
    by (auto simp: result_of_def Let_def frames_loop_count_frames split: if_splits)
  have "count (count_frames (2 * 438) init_tracker
                 (concat (replicate 438 (replicate 48 0 @ replicate 48 200)))) =
        count init_tracker + 8 * 438"
    by (rule alternating_frames) (simp_all add: init_tracker_def)
  then have big: "count (count_frames 876 init_tracker
                    (concat (replicate 438 (replicate 48 0 @ replicate 48 200)))) = 3504"
    by (simp add: init_tracker_def)
  have "result_of ([0x50, 0x53, 0x45, 0x51, 24, 0, 0, 2, 0, 0, 48, 0, 0, 0, 0x6C, 0x03, 0, 0,
                    15, 0, 0, 0, 0, 0] @
                   concat (replicate 438 (replicate 48 0 @ replicate 48 200))) =
        Inr \<lparr>frame_count = 876, step_time = 15, duration_s = 657 / 50,
              memory_usage = 3504 / 3500\<rparr>"
    by (simp add: result_of_def header_of_def le_uint_def PSEQ_def MEMORY_LIMIT_def big)
  then show ?thesis
    using general by (simp add: validate_open_file MEMORY_LIMIT_def)
qed

theorem memory_usage_unclamped_witness:
  "fst (validate (open_file
          ([0x50, 0x53, 0x45, 0x51, 24, 0, 0, 2, 0, 0, 48, 0, 0, 0, 2, 0, 0, 0, 20, 0,
            0, 0, 0, 0] @ replicate 96 0))) =
     Inr \<lparr>frame_count = 2, step_time = 20, duration_s = 1 / 25, memory_usage = 4 / 3500\<rparr>
   \<and> (4 / 3500 :: rat) =
       of_nat (count (fst (frames_loop 2 init_tracker
                 \<lparr>content = [0x50, 0x53, 0x45, 0x51, 24, 0, 0, 2, 0, 0, 48, 0, 0, 0, 2, 0, 0, 0,
                              20, 0, 0, 0, 0, 0] @ replicate 96 0,
                  pos = 24, stdout = []\<rparr>))) / 3500"
proof -
  have ok: "fst (validate (open_file
              ([0x50, 0x53, 0x45, 0x51, 24, 0, 0, 2, 0, 0, 48, 0, 0, 0, 2, 0, 0, 0, 20, 0,
                0, 0, 0, 0] @ replicate 96 0))) =
            Inr \<lparr>frame_count = 2, step_time = 20, duration_s = 1 / 25,
                  memory_usage = 4 / 3500\<rparr>"
    by (simp add: validate_open_file result_of_def header_of_def le_uint_def PSEQ_def
        MEMORY_LIMIT_def count_frames_pos update_tracker_def init_tracker_def light_state_def
        ramp_state_def closure_state_def)
  have start: "h_start (header_of
                 ([0x50, 0x53, 0x45, 0x51, 24, 0, 0, 2, 0, 0, 48, 0, 0, 0, 2, 0, 0, 0, 20, 0,
                   0, 0, 0, 0] @ replicate 96 0)) = 24"
    by (simp add: header_of_def le_uint_def)
  show ?thesis
    using memory_usage_unclamped [of
        "[0x50, 0x53, 0x45, 0x51, 24, 0, 0, 2, 0, 0, 48, 0, 0, 0, 2, 0, 0, 0, 20, 0,
          0, 0, 0, 0] @ replicate 96 0"
        "\<lparr>frame_count = 2, step_time = 20, duration_s = 1 / 25, memory_usage = 4 / 3500\<rparr>"
        "[]"]
      ok
    unfolding start
    by simp
qed

section \<open>The version advisory\<close>

lemma validate_content: "content (snd (validate w)) = content w"
proof (cases "read_header w")
  case (Pair res w1)
  have c1: "content w1 = content w"
    using read_header_content [of w] Pair by simp
  show ?thesis
  proof (cases res)
    case (Inl e)
    then show ?thesis using Pair c1 by (simp add: validate_def)
  next
    case (Inr h)
    then show ?thesis
      using Pair c1
      by (simp add: validate_def Let_def case_prod_beta frames_loop_content file_seek_def
          print_version_warning_content)
  qed
qed

lemma print_version_warning_stdout:
  "stdout (print_version_warning major minor w) =
     stdout w @ [Blank, Version_warning major minor, Download_hint, Report_hint, Blank]"
  by (simp add: print_version_warning_def print_def)

lemma validate_stdout:
  assumes "pos w = 0" and "fst (validate w) = Inr r"
  shows "stdout (snd (validate w)) =
           stdout w @
           (if h_major (header_of (content w)) = 2
               \<and> (h_minor (header_of (content w)) = 0 \<or> h_minor (header_of (content w)) = 2)
            then []
            else [Blank,
                  Version_warning (h_major (header_of (content w))) (h_minor (header_of (content w))),
                  Download_hint, Report_hint, Blank])"
proof -
  have "21 \<le> length (content w)"
    using assms validate_short [of w] by (cases "length (content w) < 21") simp_all
  then have rh: "read_header w = (Inr (header_of (content w)), w\<lparr>pos := 21\<rparr>)"
    using read_header_ok [OF assms(1)] by simp
  show ?thesis
    using assms(2)
    by (auto simp: validate_def rh Let_def case_prod_beta frames_loop_stdout file_seek_def
        print_version_warning_stdout split: if_splits)
qed

lemma validate_stdout_error: "fst (validate w) = Inl e \<Longrightarrow> stdout (snd (validate w)) = stdout w"
proof (cases "read_header w")
  case (Pair res w1)
  assume err: "fst (validate w) = Inl e"
  have s1: "stdout w1 = stdout w"
    using read_header_stdout [of w] Pair by simp
  show ?thesis
  proof (cases res)
    case (Inl e')
    then show ?thesis using Pair s1 by (simp add: validate_def)
  next
    case (Inr h)
    then show ?thesis
      using Pair s1 err
      by (auto simp: validate_def Let_def case_prod_beta split: if_splits)
  qed
qed

lemma result_of_version_bytes: "result_of (bs[6 := a, 7 := b]) = result_of bs"
proof -
  let ?bs' = "bs[6 := a, 7 := b]"
  have magic: "h_magic (header_of ?bs') = h_magic (header_of bs)"
    and start: "h_start (header_of ?bs') = h_start (header_of bs)"
    and channels: "h_channel_count (header_of ?bs') = h_channel_count (header_of bs)"
    and frames: "h_frame_count (header_of ?bs') = h_frame_count (header_of bs)"
    and step: "h_step_time (header_of ?bs') = h_step_time (header_of bs)"
    and compression: "h_compression_type (header_of ?bs') = h_compression_type (header_of bs)"
    by (simp_all add: header_of_def drop_update_swap)
  have data: "drop n ?bs' = drop n bs" if "24 \<le> n" for n
    using that by simp
  show ?thesis
    unfolding result_of_def Let_def magic start channels frames step compression
    by (simp add: data)
qed

text \<open>
  C8. Two streams of the same length that agree at every offset other than 6 and 7 (the
  minor and the major version) give the same outcome of \<open>validate\<close>: the same result or the
  same error. The advisory never aborts. It is reached once the four fatal checks have
  passed: when \<open>validate\<close> returns a result, what it has printed is the five lines of the
  advisory if the version is neither 2.0 nor 2.2, and nothing otherwise; when \<open>validate\<close>
  raises, it has printed nothing.
\<close>

theorem version_advisory_harmless:
  "(length bs' = length bs \<and> (\<forall>i<length bs. i \<noteq> 6 \<and> i \<noteq> 7 \<longrightarrow> bs' ! i = bs ! i) \<longrightarrow>
      fst (validate (open_file bs')) = fst (validate (open_file bs)))
   \<and> (fst (validate (open_file bs)) = Inr r \<longrightarrow>
        stdout (snd (validate (open_file bs))) =
          (if h_major (header_of bs) = 2
              \<and> (h_minor (header_of bs) = 0 \<or> h_minor (header_of bs) = 2)
           then []
           else [Blank, Version_warning (h_major (header_of bs)) (h_minor (header_of bs)),
                 Download_hint, Report_hint, Blank]))
   \<and> (fst (validate (open_file bs)) = Inl e \<longrightarrow> stdout (snd (validate (open_file bs))) = [])
   \<and> h_minor (header_of bs) = unat (bs ! 6) \<and> h_major (header_of bs) = unat (bs ! 7)"
proof -
  have same: "fst (validate (open_file bs')) = fst (validate (open_file bs))"
    if len: "length bs' = length bs"
      and eq: "\<forall>i<length bs. i \<noteq> 6 \<and> i \<noteq> 7 \<longrightarrow> bs' ! i = bs ! i"
  proof -
    have "bs' = bs[6 := bs' ! 6, 7 := bs' ! 7]"
    proof (rule nth_equalityI)
      show "length bs' = length (bs[6 := bs' ! 6, 7 := bs' ! 7])"
        using len by simp
    next
      fix i
      assume "i < length bs'"
      then have i: "i < length bs" using len by simp
      show "bs' ! i = bs[6 := bs' ! 6, 7 := bs' ! 7] ! i"
      proof (cases "i = 6 \<or> i = 7")
        case True
        then show ?thesis using i by (auto simp: nth_list_update)
      next
        case False
        then have "bs' ! i = bs ! i" using eq i by simp
        then show ?thesis using False by simp
      qed
    qed
    then have "result_of bs' = result_of bs"
      using result_of_version_bytes [of bs "bs' ! 6" "bs' ! 7"] by simp
    then show ?thesis by (simp add: validate_open_file)
  qed
  have out: "stdout (snd (validate (open_file bs))) =
          (if h_major (header_of bs) = 2
              \<and> (h_minor (header_of bs) = 0 \<or> h_minor (header_of bs) = 2)
           then []
           else [Blank, Version_warning (h_major (header_of bs)) (h_minor (header_of bs)),
                 Download_hint, Report_hint, Blank])"
    if "fst (validate (open_file bs)) = Inr r"
    using validate_stdout [of "open_file bs" r] that by (simp add: open_file_def)
  have quiet: "stdout (snd (validate (open_file bs))) = []"
    if "fst (validate (open_file bs)) = Inl e"
    using validate_stdout_error [OF that] by (simp add: open_file_def)
  show ?thesis
    using same out quiet by (simp add: header_of_def)
qed

theorem version_advisory_harmless_witness:
  "fst (validate (open_file
          ([0x50, 0x53, 0x45, 0x51, 24, 0, 0, 2, 0, 0, 48, 0, 0, 0, 1, 0, 0, 0, 15, 0,
            0, 0, 0, 0] [6 := 1, 7 := 3]))) =
     Inr \<lparr>frame_count = 1, step_time = 15, duration_s = 3 / 200, memory_usage = 4 / 3500\<rparr>
   \<and> stdout (snd (validate (open_file
          ([0x50, 0x53, 0x45, 0x51, 24, 0, 0, 2, 0, 0, 48, 0, 0, 0, 1, 0, 0, 0, 15, 0,
            0, 0, 0, 0] [6 := 1, 7 := 3])))) =
     [Blank, Version_warning 3 1, Download_hint, Report_hint, Blank]"
proof -
  let ?A = "[0x50, 0x53, 0x45, 0x51, 24, 0, 0, 2, 0, 0, 48, 0, 0, 0, 1, 0, 0, 0, 15, 0,
             0, 0, 0, 0] :: byte list"
  let ?R = "\<lparr>frame_count = 1, step_time = 15, duration_s = 3 / 200,
             memory_usage = 4 / 3500\<rparr>"
  have ok: "fst (validate (open_file ?A)) = Inr ?R"
    by (simp add: validate_open_file result_of_def header_of_def le_uint_def PSEQ_def
        MEMORY_LIMIT_def update_tracker_init_count)
  have hyp: "length ?A = length (?A[6 := 1, 7 := 3])
             \<and> (\<forall>i<length (?A[6 := 1, 7 := 3]).
                    i \<noteq> 6 \<and> i \<noteq> 7 \<longrightarrow> ?A ! i = ?A[6 := 1, 7 := 3] ! i)"
    unfolding length_list_update by (metis nth_list_update_neq)
  note inst = version_advisory_harmless [of ?A "?A[6 := 1, 7 := 3]" ?R Struct_error]
  have "fst (validate (open_file ?A)) = fst (validate (open_file (?A[6 := 1, 7 := 3])))"
    using inst hyp by blast
  then have ok': "fst (validate (open_file (?A[6 := 1, 7 := 3]))) = Inr ?R"
    using ok by simp
  have "stdout (snd (validate (open_file (?A[6 := 1, 7 := 3])))) =
          (if h_major (header_of (?A[6 := 1, 7 := 3])) = 2
              \<and> (h_minor (header_of (?A[6 := 1, 7 := 3])) = 0
                   \<or> h_minor (header_of (?A[6 := 1, 7 := 3])) = 2)
           then []
           else [Blank,
                 Version_warning (h_major (header_of (?A[6 := 1, 7 := 3])))
                   (h_minor (header_of (?A[6 := 1, 7 := 3]))),
                 Download_hint, Report_hint, Blank])"
    using inst ok' by blast
  then show ?thesis
    using ok' by (simp add: header_of_def)
qed

section \<open>Determinism\<close>

text \<open>
  C9. The outcome of \<open>validate\<close> on a file object at position 0 is a function of the bytes
  of the file alone: two runs over identical bytes give the same result or the same error,
  whatever has been printed before. \<open>validate\<close> leaves the bytes as they are, so a second
  run over the same file object, rewound to position 0, repeats the outcome of the first.
\<close>

theorem validate_deterministic:
  "(content w1 = content w2 \<and> pos w1 = 0 \<and> pos w2 = 0 \<longrightarrow>
      fst (validate w1) = fst (validate w2))
   \<and> content (snd (validate w)) = content w
   \<and> (pos w = 0 \<longrightarrow> fst (validate (file_seek 0 (snd (validate w)))) = fst (validate w))"
proof -
  have "fst (validate (file_seek 0 (snd (validate w)))) = fst (validate w)" if "pos w = 0"
  proof -
    have "fst (validate (file_seek 0 (snd (validate w)))) =
          result_of (content (file_seek 0 (snd (validate w))))"
      by (rule validate_result_of) (simp add: file_seek_def)
    also have "\<dots> = result_of (content w)"
      by (simp add: file_seek_def validate_content)
    also have "\<dots> = fst (validate w)"
      using that by (rule validate_result_of [symmetric])
    finally show ?thesis .
  qed
  then show ?thesis
    by (simp add: validate_result_of validate_content)
qed

theorem validate_deterministic_witness:
  "fst (validate \<lparr>content = [0x50, 0x53, 0x45, 0x51, 24, 0, 0, 2, 0, 0, 48, 0, 0, 0, 1, 0, 0, 0, 15, 0,
      0, 0, 0, 0], pos = 0, stdout = [Blank]\<rparr>) =
     fst (validate (open_file [0x50, 0x53, 0x45, 0x51, 24, 0, 0, 2, 0, 0, 48, 0, 0, 0, 1, 0, 0, 0, 15, 0,
      0, 0, 0, 0]))
   \<and> fst (validate (file_seek 0 (snd (validate (open_file [0x50, 0x53, 0x45, 0x51, 24, 0, 0, 2, 0, 0, 48, 0, 0, 0, 1, 0, 0, 0, 15, 0,
      0, 0, 0, 0]))))) =
     fst (validate (open_file [0x50, 0x53, 0x45, 0x51, 24, 0, 0, 2, 0, 0, 48, 0, 0, 0, 1, 0, 0, 0, 15, 0,
      0, 0, 0, 0]))"
  using validate_deterministic [of
      "\<lparr>content = [0x50, 0x53, 0x45, 0x51, 24, 0, 0, 2, 0, 0, 48, 0, 0, 0, 1, 0, 0, 0, 15, 0,
      0, 0, 0, 0], pos = 0, stdout = [Blank]\<rparr>"
      "open_file [0x50, 0x53, 0x45, 0x51, 24, 0, 0, 2, 0, 0, 48, 0, 0, 0, 1, 0, 0, 0, 15, 0,
      0, 0, 0, 0]"
      "open_file [0x50, 0x53, 0x45, 0x51, 24, 0, 0, 2, 0, 0, 48, 0, 0, 0, 1, 0, 0, 0, 15, 0,
      0, 0, 0, 0]"]
  by (simp add: open_file_def)

end
